theory Spec2Isabelle
  imports Complex_Main
begin

section \<open>The scroll engine of main.js\<close>

text \<open>
  The model follows section C of main.js (\<^verbatim>\<open>initSmoothScroll\<close>): the object
  \<^verbatim>\<open>state\<close> with its nested \<^verbatim>\<open>scroll\<close> object, the two globals
  \<^verbatim>\<open>window.__SCROLL_MOMENTUM\<close> and \<^verbatim>\<open>window.__GLOBAL_PROGRESS\<close>, the closure variable
  \<^verbatim>\<open>touchY\<close>, and the two layout metrics the code queries
  (\<^verbatim>\<open>window.innerHeight\<close> and \<^verbatim>\<open>scrollContent.getBoundingClientRect().height\<close>).

  JavaScript numbers are IEEE doubles. In the listeners and in \<open>fluidScrollRender\<close>
  they are real numbers, so that the statements about them are about the exact arithmetic
  the code writes down, without rounding, infinities or NaN. The integrator is modelled a
  second time, as \<open>fluidScrollRender64\<close>, with every operation rounded to binary64: that
  is the model for what iterating the frame does in the long run, where rounding decides.
  Writes to the DOM (style transforms, the HUD) and the calls into GSAP are outside the
  model: they do not touch the scroll state.
\<close>

record state =
  isLoaded :: bool
  scroll_y :: real
  scroll_target :: real
  scroll_limit :: real
  scroll_ease :: real
  scroll_velocity :: real
  SCROLL_MOMENTUM :: real
  GLOBAL_PROGRESS :: real
  touchY :: real
  innerHeight :: real
  contentHeight :: real

text \<open>
  The state right after the script has been loaded (lines 7--22), for a page whose content
  is \<open>ch\<close> pixels high in a viewport \<open>ih\<close> pixels high.
\<close>

definition boot :: "real \<Rightarrow> real \<Rightarrow> state" where
  "boot ch ih =
     \<lparr>isLoaded = False, scroll_y = 0, scroll_target = 0, scroll_limit = 0,
      scroll_ease = 0.08, scroll_velocity = 0, SCROLL_MOMENTUM = 0, GLOBAL_PROGRESS = 0,
      touchY = 0, innerHeight = ih, contentHeight = ch\<rparr>"

text \<open>The listener of ScrollTrigger's "refresh" event (lines 219--221).\<close>

definition refreshListener :: "state \<Rightarrow> state" where
  "refreshListener s = s\<lparr>scroll_limit := contentHeight s - innerHeight s\<rparr>"

text \<open>
  \<^verbatim>\<open>calculateBounds\<close> (lines 106--110): it sets the limit and calls
  \<^verbatim>\<open>ScrollTrigger.refresh()\<close>, which fires the listener above.
\<close>

definition calculateBounds :: "state \<Rightarrow> state" where
  "calculateBounds s = refreshListener (s\<lparr>scroll_limit := contentHeight s - innerHeight s\<rparr>)"

text \<open>The wheel listener (lines 117--129); \<open>deltaMode = 1\<close> is the line mode.\<close>

definition wheel :: "real \<Rightarrow> nat \<Rightarrow> state \<Rightarrow> state" where
  "wheel deltaY deltaMode s =
     (if \<not> isLoaded s then s
      else
        let delta = (if deltaMode = 1 then deltaY * 40 else deltaY);
            s1 = s\<lparr>scroll_target := scroll_target s + delta\<rparr>
        in s1\<lparr>scroll_target := max 0 (min (scroll_target s1) (scroll_limit s1))\<rparr>)"

text \<open>
  The keydown listener (lines 132--148). The result carries the new state and whether
  \<^verbatim>\<open>e.preventDefault()\<close> was called. The switch is the first component of
  \<open>keySwitch\<close>: the value of \<^verbatim>\<open>amount\<close>, and the state after the assignments of
  the Home and End cases.
\<close>

definition keySwitch :: "string \<Rightarrow> state \<Rightarrow> real \<times> state" where
  "keySwitch key s =
     (if key = ''ArrowDown'' then (100, s)
      else if key = ''ArrowUp'' then (- 100, s)
      else if key = ''PageDown'' \<or> key = '' '' then (innerHeight s * 0.8, s)
      else if key = ''PageUp'' then (- innerHeight s * 0.8, s)
      else if key = ''Home'' then (0, s\<lparr>scroll_target := 0\<rparr>)
      else if key = ''End'' then (0, s\<lparr>scroll_target := scroll_limit s\<rparr>)
      else (0, s))"

definition keydown :: "string \<Rightarrow> state \<Rightarrow> state \<times> bool" where
  "keydown key s =
     (if \<not> isLoaded s then (s, False)
      else
        let (amount, s1) = keySwitch key s
        in if amount \<noteq> 0 then
             let s2 = s1\<lparr>scroll_target := scroll_target s1 + amount\<rparr>
             in (s2\<lparr>scroll_target := max 0 (min (scroll_target s2) (scroll_limit s2))\<rparr>, True)
           else (s1, False))"

text \<open>The touch listeners (lines 151--163); the argument is \<^verbatim>\<open>e.touches[0].clientY\<close>.\<close>

definition touchstart :: "real \<Rightarrow> state \<Rightarrow> state" where
  "touchstart clientY s = s\<lparr>touchY := clientY\<rparr>"

definition touchmove :: "real \<Rightarrow> state \<Rightarrow> state" where
  "touchmove clientY s =
     (if \<not> isLoaded s then s
      else
        let deltaY = touchY s - clientY;
            s1 = s\<lparr>touchY := clientY\<rparr>;
            s2 = s1\<lparr>scroll_target := scroll_target s1 + deltaY * 2.5\<rparr>
        in s2\<lparr>scroll_target := max 0 (min (scroll_target s2) (scroll_limit s2))\<rparr>)"

text \<open>
  One run of the render loop's body (lines 166--201): the frame the browser executes
  between two \<^verbatim>\<open>requestAnimationFrame\<close> callbacks.
\<close>

definition fluidScrollRender :: "state \<Rightarrow> state" where
  "fluidScrollRender s =
     (let s1 = s\<lparr>scroll_y := scroll_y s + (scroll_target s - scroll_y s) * scroll_ease s\<rparr>;
          vel = scroll_target s1 - scroll_y s1;
          s2 = s1\<lparr>scroll_velocity := vel\<rparr>;
          s3 = s2\<lparr>SCROLL_MOMENTUM := scroll_velocity s2\<rparr>
      in if scroll_limit s3 > 0
         then s3\<lparr>GLOBAL_PROGRESS := max 0 (min 1 (scroll_y s3 / scroll_limit s3))\<rparr>
         else s3)"

text \<open>The setter of the scroller proxy handed to ScrollTrigger (lines 205--211).\<close>

definition scrollTop :: "real \<Rightarrow> state \<Rightarrow> state" where
  "scrollTop v s = s\<lparr>scroll_target := v, scroll_y := v\<rparr>"

text \<open>
  \<^verbatim>\<open>initSmoothScroll\<close> itself (lines 104--225): the bounds are computed once, the
  listeners are registered, and the first frame runs.
\<close>

definition initSmoothScroll :: "state \<Rightarrow> state" where
  "initSmoothScroll s = fluidScrollRender (calculateBounds s)"

subsection \<open>Events\<close>

text \<open>
  What can happen to the state after \<^verbatim>\<open>initSmoothScroll\<close>: the three kinds of input,
  a frame, a window resize (the metrics change and the resize listener
  \<^verbatim>\<open>calculateBounds\<close> runs), a layout shift (the content height changes and no listener
  runs), a ScrollTrigger refresh, a call of the proxy's setter, and the end of the loader
  (line 290, \<^verbatim>\<open>state.isLoaded = true\<close>).
\<close>

datatype event =
    Wheel real nat
  | KeyDown string
  | TouchStart real
  | TouchMove real
  | Frame
  | Resize real real
  | LayoutShift real
  | Refresh
  | ScrollTop real
  | WorldBooted

fun step :: "event \<Rightarrow> state \<Rightarrow> state" where
  "step (Wheel deltaY deltaMode) s = wheel deltaY deltaMode s"
| "step (KeyDown key) s = fst (keydown key s)"
| "step (TouchStart clientY) s = touchstart clientY s"
| "step (TouchMove clientY) s = touchmove clientY s"
| "step Frame s = fluidScrollRender s"
| "step (Resize ch ih) s = calculateBounds (s\<lparr>innerHeight := ih, contentHeight := ch\<rparr>)"
| "step (LayoutShift ch) s = s\<lparr>contentHeight := ch\<rparr>"
| "step Refresh s = refreshListener s"
| "step (ScrollTop v) s = scrollTop v s"
| "step WorldBooted s = s\<lparr>isLoaded := True\<rparr>"

fun run :: "event list \<Rightarrow> state \<Rightarrow> state" where
  "run [] s = s"
| "run (e # es) s = run es (step e s)"

text \<open>The events that are input updates or frames: they never write the limit.\<close>

fun inputOrFrame :: "event \<Rightarrow> bool" where
  "inputOrFrame (Wheel deltaY deltaMode) = True"
| "inputOrFrame (KeyDown key) = True"
| "inputOrFrame (TouchStart clientY) = True"
| "inputOrFrame (TouchMove clientY) = True"
| "inputOrFrame Frame = True"
| "inputOrFrame WorldBooted = True"
| "inputOrFrame _ = False"

text \<open>
  The state of the worked examples: a page 2000 pixels high in a viewport of 1000, so that
  the limit is 1000, after the loader has finished and before any input.
\<close>

definition scenario :: state where
  "scenario = step WorldBooted (initSmoothScroll (boot 2000 1000))"

text \<open>
  The same page after the user has wheeled to 800 and the content has then shrunk to 1300
  pixels (a resize that recomputes the limit as 300), and a page shorter than its viewport
  (500 pixels of content in a viewport of 1000, so that the limit is negative).
\<close>

definition shrunk :: state where
  "shrunk = step (Resize 1300 1000) (wheel 800 0 scenario)"

definition shortPage :: state where
  "shortPage = step WorldBooted (initSmoothScroll (boot 500 1000))"

text \<open>
  The input events that the listeners turn into a scroll: every wheel and touch-move event,
  and a keydown of one of the seven keys named in the switch.
\<close>

fun scrollInput :: "event \<Rightarrow> bool" where
  "scrollInput (Wheel deltaY deltaMode) = True"
| "scrollInput (TouchMove clientY) = True"
| "scrollInput (KeyDown key) =
     (key \<in> set [''ArrowDown'', ''ArrowUp'', ''PageDown'', '' '', ''PageUp'', ''Home'', ''End''])"
| "scrollInput _ = False"

subsection \<open>Binary64 arithmetic\<close>

text \<open>
  The numbers of the running program are binary64 values, and \<^verbatim>\<open>+\<close>, \<^verbatim>\<open>-\<close>,
  \<^verbatim>\<open>*\<close> and \<^verbatim>\<open>/\<close> return the exact result rounded to the nearest of them, ties
  going to the even significand. \<open>binade a k\<close> searches, from \<open>k\<close>, the exponent \<open>j\<close> with
  \<open>2^j \<le> a < 2^(j+1)\<close>; a significand has 53 bits, so the values near \<open>a\<close> are the multiples
  of \<open>2^(j-52)\<close>, and of \<open>2^(-1074)\<close> in the subnormal range. The model has no infinities and
  no NaN: it is the arithmetic of the code as long as no result reaches \<open>2^1024\<close>.
\<close>

function binade :: "real \<Rightarrow> int \<Rightarrow> int" where
  "binade a k =
     (if a \<le> 0 then k
      else if a < 2 powi k then binade a (k - 1)
      else if 2 powi (k + 1) \<le> a then binade a (k + 1)
      else k)"
  by pat_completeness auto

termination binade
proof (relation "measure (\<lambda>(a, k). nat \<bar>\<lfloor>log 2 a\<rfloor> - k\<bar>)")
  show "wf (measure (\<lambda>(a, k). nat \<bar>\<lfloor>log 2 a\<rfloor> - k\<bar>))" by simp
next
  fix a :: real and k :: int
  assume a: "\<not> a \<le> 0" "a < 2 powi k"
  have "(2::real) powr real_of_int k = 2 powi k"
    by (rule powr_real_of_int') simp_all
  with a have "log 2 a < real_of_int k"
    by (simp add: log_less_iff)
  then have "\<lfloor>log 2 a\<rfloor> < k"
    by (simp add: floor_less_iff)
  then show "((a, k - 1), (a, k)) \<in> measure (\<lambda>(a, k). nat \<bar>\<lfloor>log 2 a\<rfloor> - k\<bar>)"
    by simp
next
  fix a :: real and k :: int
  assume a: "\<not> a \<le> 0" "\<not> a < 2 powi k" "2 powi (k + 1) \<le> a"
  have "(2::real) powr real_of_int (k + 1) = 2 powi (k + 1)"
    by (rule powr_real_of_int') simp_all
  with a have "real_of_int (k + 1) \<le> log 2 a"
    by (simp add: le_log_iff)
  then have "k + 1 \<le> \<lfloor>log 2 a\<rfloor>"
    by (simp add: le_floor_iff)
  then show "((a, k + 1), (a, k)) \<in> measure (\<lambda>(a, k). nat \<bar>\<lfloor>log 2 a\<rfloor> - k\<bar>)"
    by simp
qed

declare binade.simps [simp del]

text \<open>Rounding a real to the nearest integer, a tie going to the even one.\<close>

definition rne :: "real \<Rightarrow> int" where
  "rne m =
     (let n = \<lfloor>m\<rfloor>; r = m - of_int n
      in if r < 1 / 2 then n else if 1 / 2 < r then n + 1 else if even n then n else n + 1)"

text \<open>
  The exponent of the unit in the last place at a magnitude \<open>a\<close>, the binary64 value nearest
  to a magnitude, and the one nearest to any real: rounding is symmetric about 0.
\<close>

definition ulpExp :: "real \<Rightarrow> int" where
  "ulpExp a = max (binade a 0 - 52) (- 1074)"

definition roundPos :: "real \<Rightarrow> real" where
  "roundPos a = of_int (rne (a / 2 powi ulpExp a)) * 2 powi ulpExp a"

definition round64 :: "real \<Rightarrow> real" where
  "round64 x = (if x < 0 then - roundPos (- x) else roundPos x)"

text \<open>
  Line 168 in binary64, \<^verbatim>\<open>y += (target - y) * ease\<close>: three operations, each rounded.
\<close>

definition lerp64 :: "real \<Rightarrow> real \<Rightarrow> real \<Rightarrow> real" where
  "lerp64 t e y = round64 (y + round64 (round64 (t - y) * e))"

text \<open>The frame (lines 166--201) with every arithmetic operation rounded.\<close>

definition fluidScrollRender64 :: "state \<Rightarrow> state" where
  "fluidScrollRender64 s =
     (let s1 = s\<lparr>scroll_y :=
                  round64 (scroll_y s + round64 (round64 (scroll_target s - scroll_y s) * scroll_ease s))\<rparr>;
          vel = round64 (scroll_target s1 - scroll_y s1);
          s2 = s1\<lparr>scroll_velocity := vel\<rparr>;
          s3 = s2\<lparr>SCROLL_MOMENTUM := scroll_velocity s2\<rparr>
      in if scroll_limit s3 > 0
         then s3\<lparr>GLOBAL_PROGRESS := max 0 (min 1 (round64 (scroll_y s3 / scroll_limit s3)))\<rparr>
         else s3)"

text \<open>
  The start state in binary64: the literal \<^verbatim>\<open>0.08\<close> of line 17 denotes the binary64
  value nearest to 0.08. \<open>scenario64\<close> is the example page after the loader and one wheel
  delta of +500; the listeners compute \<open>2000 - 1000\<close> and \<open>0 + 500\<close> there, which binary64
  represents exactly.
\<close>

definition boot64 :: "real \<Rightarrow> real \<Rightarrow> state" where
  "boot64 ch ih = (boot ch ih)\<lparr>scroll_ease := round64 0.08\<rparr>"

definition scenario64 :: state where
  "scenario64 =
     wheel 500 0 (step WorldBooted (fluidScrollRender64 (calculateBounds (boot64 2000 1000))))"

section \<open>The frame\<close>

lemmas engine_defs =
  wheel_def keydown_def keySwitch_def touchstart_def touchmove_def fluidScrollRender_def
  calculateBounds_def refreshListener_def scrollTop_def initSmoothScroll_def boot_def Let_def

lemma frame_y:
  "scroll_y (fluidScrollRender s) = scroll_y s + (scroll_target s - scroll_y s) * scroll_ease s"
  by (simp add: fluidScrollRender_def Let_def)

lemma frame_target: "scroll_target (fluidScrollRender s) = scroll_target s"
  by (simp add: fluidScrollRender_def Let_def)

lemma frame_limit: "scroll_limit (fluidScrollRender s) = scroll_limit s"
  by (simp add: fluidScrollRender_def Let_def)

lemma frame_ease: "scroll_ease (fluidScrollRender s) = scroll_ease s"
  by (simp add: fluidScrollRender_def Let_def)

lemma frame_velocity:
  "scroll_velocity (fluidScrollRender s) = (1 - scroll_ease s) * (scroll_target s - scroll_y s)"
  by (simp add: fluidScrollRender_def Let_def algebra_simps)

lemma iter_target: "scroll_target ((fluidScrollRender ^^ n) s) = scroll_target s"
  by (induction n) (simp_all add: frame_target)

lemma iter_ease: "scroll_ease ((fluidScrollRender ^^ n) s) = scroll_ease s"
  by (induction n) (simp_all add: frame_ease)

lemma iter_limit: "scroll_limit ((fluidScrollRender ^^ n) s) = scroll_limit s"
  by (induction n) (simp_all add: frame_limit)

lemma iter_error:
  "scroll_target s - scroll_y ((fluidScrollRender ^^ n) s) =
     (1 - scroll_ease s) ^ n * (scroll_target s - scroll_y s)"
proof (induction n)
  case 0
  show ?case by simp
next
  case (Suc n)
  have "scroll_target s - scroll_y ((fluidScrollRender ^^ Suc n) s) =
      (1 - scroll_ease s) * (scroll_target s - scroll_y ((fluidScrollRender ^^ n) s))"
    by (simp add: frame_y iter_target iter_ease algebra_simps)
  with Suc show ?case by simp
qed

lemma iter_y:
  "scroll_y ((fluidScrollRender ^^ n) s) =
     scroll_target s - (1 - scroll_ease s) ^ n * (scroll_target s - scroll_y s)"
  using iter_error [of s n] by simp

lemma scenario_fields:
  "isLoaded scenario" "scroll_y scenario = 0" "scroll_target scenario = 0"
  "scroll_limit scenario = 1000" "scroll_ease scenario = 2 / 25"
  "innerHeight scenario = 1000"
  by (simp_all add: scenario_def initSmoothScroll_def boot_def calculateBounds_def
      refreshListener_def fluidScrollRender_def Let_def)

lemma wheel_scenario:
  "scroll_target (wheel 500 0 scenario) = 500" "scroll_y (wheel 500 0 scenario) = 0"
  "scroll_ease (wheel 500 0 scenario) = 2 / 25"
  by (simp_all add: wheel_def Let_def scenario_fields)

lemma scenario_after_ticks:
  "scroll_y ((fluidScrollRender ^^ n) (fluidScrollRender (wheel 500 0 scenario))) =
     500 - (23 / 25) ^ Suc n * 500"
proof -
  have "(fluidScrollRender ^^ n) (fluidScrollRender (wheel 500 0 scenario))
     = (fluidScrollRender ^^ Suc n) (wheel 500 0 scenario)"
    by (simp add: funpow_swap1)
  then show ?thesis
    by (simp only: iter_y wheel_scenario) simp
qed

text \<open>
  C9: a frame writes \<^verbatim>\<open>scroll.y\<close>, \<^verbatim>\<open>scroll.velocity\<close> and the two published globals
  and nothing else; the target, the limit and the ease factor (and the load flag, the
  touch position and the layout metrics) are what they were: the frame neither clamps the
  target nor recomputes the bounds.
\<close>

theorem frame_writes_only_position_velocity_signals:
  "(\<exists>p v m g. fluidScrollRender s =
       s\<lparr>scroll_y := p, scroll_velocity := v, SCROLL_MOMENTUM := m, GLOBAL_PROGRESS := g\<rparr>)
   \<and> scroll_target (fluidScrollRender s) = scroll_target s
   \<and> scroll_limit (fluidScrollRender s) = scroll_limit s
   \<and> scroll_ease (fluidScrollRender s) = scroll_ease s"
proof -
  let ?p = "scroll_y (fluidScrollRender s)"
  let ?v = "scroll_velocity (fluidScrollRender s)"
  let ?m = "SCROLL_MOMENTUM (fluidScrollRender s)"
  let ?g = "GLOBAL_PROGRESS (fluidScrollRender s)"
  have "fluidScrollRender s =
      s\<lparr>scroll_y := ?p, scroll_velocity := ?v, SCROLL_MOMENTUM := ?m, GLOBAL_PROGRESS := ?g\<rparr>"
    by (simp add: fluidScrollRender_def Let_def)
  then have "\<exists>p v m g. fluidScrollRender s =
      s\<lparr>scroll_y := p, scroll_velocity := v, SCROLL_MOMENTUM := m, GLOBAL_PROGRESS := g\<rparr>"
    by blast
  then show ?thesis
    by (simp add: frame_target frame_limit frame_ease)
qed





lemma pow_below:
  fixes c d eps :: real
  assumes "0 \<le> c" "c < 1" "0 < eps"
  shows "\<exists>N. \<forall>n\<ge>N. c ^ n * \<bar>d\<bar> < eps"
proof -
  have "0 < eps / (\<bar>d\<bar> + 1)" using assms by simp
  then obtain N where N: "c ^ N < eps / (\<bar>d\<bar> + 1)"
    using real_arch_pow_inv [of "eps / (\<bar>d\<bar> + 1)" c] assms by blast
  have "\<forall>n\<ge>N. c ^ n * \<bar>d\<bar> < eps"
  proof (intro allI impI)
    fix n assume "N \<le> n"
    then have "c ^ n \<le> c ^ N"
      using assms by (simp add: power_decreasing)
    then have "c ^ n < eps / (\<bar>d\<bar> + 1)" using N by simp
    then have "c ^ n * (\<bar>d\<bar> + 1) < eps"
      by (simp add: pos_less_divide_eq)
    moreover have "c ^ n * \<bar>d\<bar> \<le> c ^ n * (\<bar>d\<bar> + 1)"
      using assms by (simp add: mult_left_mono)
    ultimately show "c ^ n * \<bar>d\<bar> < eps" by simp
  qed
  then show ?thesis by blast
qed

text \<open>
  In exact arithmetic, with an ease factor in \<open>(0, 1]\<close> and no input, so that the target
  stays where it is, the frames bring the position within any \<open>eps > 0\<close> of the target after finitely
  many frames and keep it there; the error \<open>target - position\<close> never changes sign (its
  product with the initial error is never negative), and its size never grows.
\<close>

lemma exact_iteration_converges:
  assumes "0 < scroll_ease s" and "scroll_ease s \<le> 1" and "0 < eps"
  shows "(\<exists>N. \<forall>n\<ge>N. \<bar>scroll_target s - scroll_y ((fluidScrollRender ^^ n) s)\<bar> < eps)
    \<and> (\<forall>n. scroll_target ((fluidScrollRender ^^ n) s) = scroll_target s)
    \<and> (\<forall>n. 0 \<le> (scroll_target s - scroll_y ((fluidScrollRender ^^ n) s))
                  * (scroll_target s - scroll_y s))
    \<and> (\<forall>n. \<bar>scroll_target s - scroll_y ((fluidScrollRender ^^ Suc n) s)\<bar>
              \<le> \<bar>scroll_target s - scroll_y ((fluidScrollRender ^^ n) s)\<bar>)"
proof -
  let ?c = "1 - scroll_ease s"
  let ?d = "scroll_target s - scroll_y s"
  have c: "0 \<le> ?c" "?c < 1" "?c \<le> 1" using assms by simp_all
  have err: "\<bar>scroll_target s - scroll_y ((fluidScrollRender ^^ n) s)\<bar> = ?c ^ n * \<bar>?d\<bar>" for n
    by (simp only: iter_error abs_mult power_abs abs_of_nonneg [OF c(1)])
  obtain N where "\<forall>n\<ge>N. ?c ^ n * \<bar>?d\<bar> < eps"
    using pow_below [OF c(1) c(2) assms(3)] by blast
  then have conv: "\<exists>N. \<forall>n\<ge>N. \<bar>scroll_target s - scroll_y ((fluidScrollRender ^^ n) s)\<bar> < eps"
    using err by auto
  have sign: "0 \<le> (scroll_target s - scroll_y ((fluidScrollRender ^^ n) s)) * ?d" for n
  proof -
    have eq: "(scroll_target s - scroll_y ((fluidScrollRender ^^ n) s)) * ?d = ?c ^ n * (?d * ?d)"
      by (simp only: iter_error mult.assoc)
    have nn: "0 \<le> ?c ^ n * (?d * ?d)"
      by (rule mult_nonneg_nonneg [OF zero_le_power [OF c(1)] zero_le_square])
    show ?thesis by (simp only: eq nn)
  qed
  have mono: "\<bar>scroll_target s - scroll_y ((fluidScrollRender ^^ Suc n) s)\<bar>
              \<le> \<bar>scroll_target s - scroll_y ((fluidScrollRender ^^ n) s)\<bar>" for n
  proof -
    have "?c ^ Suc n \<le> ?c ^ n"
      using c by (intro power_decreasing) simp_all
    then have "?c ^ Suc n * \<bar>?d\<bar> \<le> ?c ^ n * \<bar>?d\<bar>"
      by (intro mult_right_mono) simp_all
    then show ?thesis by (simp only: err)
  qed
  from conv sign mono show ?thesis by (simp add: iter_target)
qed


text \<open>
  C1, as the example states it, fails in its last step: 50 frames after the first one the
  position is still more than 7 pixels away from 500 (the error is \<open>500 * 0.92 ^ 51\<close>).
\<close>

theorem wheel_example_misses_tolerance:
  "\<not> \<bar>scroll_y ((fluidScrollRender ^^ 50) (fluidScrollRender (wheel 500 0 scenario))) - 500\<bar>
       \<le> 1 / 1000"
  by (simp add: scenario_after_ticks power_divide)

text \<open>
  C1, amended: with limit 1000, ease 0.08 and position 0, a wheel delta of +500 in pixel
  mode makes the target 500; one frame then gives position 40 and velocity 460; after 50
  more frames the position is between 7.11 and 7.12 away from 500, and it is within
  \<open>1e-3\<close> of 500 after 157 more frames (and not yet after 156).
\<close>

theorem wheel_example_trajectory:
  "scroll_target (wheel 500 0 scenario) = 500
   \<and> scroll_y (fluidScrollRender (wheel 500 0 scenario)) = 40
   \<and> scroll_velocity (fluidScrollRender (wheel 500 0 scenario)) = 460
   \<and> \<bar>scroll_y ((fluidScrollRender ^^ 50) (fluidScrollRender (wheel 500 0 scenario))) - 500\<bar>
       < 7.12
   \<and> \<bar>scroll_y ((fluidScrollRender ^^ 50) (fluidScrollRender (wheel 500 0 scenario))) - 500\<bar>
       > 7.11
   \<and> \<bar>scroll_y ((fluidScrollRender ^^ 157) (fluidScrollRender (wheel 500 0 scenario))) - 500\<bar>
       \<le> 1 / 1000
   \<and> \<not> \<bar>scroll_y ((fluidScrollRender ^^ 156) (fluidScrollRender (wheel 500 0 scenario))) - 500\<bar>
       \<le> 1 / 1000"
proof -
  have a: "scroll_target (wheel 500 0 scenario) = 500"
    by (simp add: wheel_scenario)
  have b: "scroll_y (fluidScrollRender (wheel 500 0 scenario)) = 40"
    by (simp add: frame_y wheel_scenario)
  have c: "scroll_velocity (fluidScrollRender (wheel 500 0 scenario)) = 460"
    by (simp add: frame_velocity wheel_scenario)
  have d: "\<bar>scroll_y ((fluidScrollRender ^^ 50) (fluidScrollRender (wheel 500 0 scenario))) - 500\<bar>
       < 7.12"
    by (simp add: scenario_after_ticks power_divide)
  have e: "\<bar>scroll_y ((fluidScrollRender ^^ 50) (fluidScrollRender (wheel 500 0 scenario))) - 500\<bar>
       > 7.11"
    by (simp add: scenario_after_ticks power_divide)
  have f: "\<bar>scroll_y ((fluidScrollRender ^^ 157) (fluidScrollRender (wheel 500 0 scenario))) - 500\<bar>
       \<le> 1 / 1000"
    by (simp add: scenario_after_ticks power_divide)
  have g: "\<not> \<bar>scroll_y ((fluidScrollRender ^^ 156) (fluidScrollRender (wheel 500 0 scenario))) - 500\<bar>
       \<le> 1 / 1000"
    by (simp add: scenario_after_ticks power_divide)
  from a b c d e f g show ?thesis by blast
qed

section \<open>Input\<close>

lemma shrunk_fields:
  "isLoaded shrunk" "scroll_y shrunk = 0" "scroll_target shrunk = 800"
  "scroll_limit shrunk = 300" "scroll_ease shrunk = 2 / 25" "innerHeight shrunk = 1000"
  by (simp_all add: shrunk_def wheel_def calculateBounds_def refreshListener_def Let_def
      scenario_fields)

lemma shortPage_fields:
  "isLoaded shortPage" "scroll_y shortPage = 0" "scroll_target shortPage = 0"
  "scroll_limit shortPage = - 500" "GLOBAL_PROGRESS shortPage = 0"
  by (simp_all add: shortPage_def engine_defs)

lemma wheel_clamps:
  "isLoaded s \<Longrightarrow> 0 \<le> scroll_limit s \<Longrightarrow>
     0 \<le> scroll_target (wheel deltaY deltaMode s)
     \<and> scroll_target (wheel deltaY deltaMode s) \<le> scroll_limit (wheel deltaY deltaMode s)"
  by (simp add: wheel_def Let_def)

lemma wheel_limit: "scroll_limit (wheel deltaY deltaMode s) = scroll_limit s"
  by (simp add: wheel_def Let_def)

lemma wheel_zero:
  "isLoaded s \<Longrightarrow> 0 \<le> scroll_limit s \<Longrightarrow> scroll_limit s \<le> scroll_target s \<Longrightarrow>
     scroll_target (wheel 0 deltaMode s) = scroll_limit s"
  by (simp add: wheel_def Let_def)

lemma touchmove_clamps:
  "isLoaded s \<Longrightarrow> 0 \<le> scroll_limit s \<Longrightarrow>
     0 \<le> scroll_target (touchmove clientY s)
     \<and> scroll_target (touchmove clientY s) \<le> scroll_limit (touchmove clientY s)"
  by (simp add: touchmove_def Let_def)

lemma keydown_jump:
  assumes "isLoaded s" and "keySwitch key s = (amount, s)" and "amount \<noteq> 0"
  shows "keydown key s =
     (s\<lparr>scroll_target := max 0 (min (scroll_target s + amount) (scroll_limit s))\<rparr>, True)"
  using assms by (simp add: keydown_def Let_def)

lemma keydown_assign:
  assumes "isLoaded s" and "keySwitch key s = (0, s1)"
  shows "keydown key s = (s1, False)"
  using assms by (simp add: keydown_def Let_def)

lemma keySwitch_keys:
  "keySwitch ''ArrowDown'' s = (100, s)"
  "keySwitch ''ArrowUp'' s = (- 100, s)"
  "keySwitch ''PageDown'' s = (innerHeight s * 0.8, s)"
  "keySwitch '' '' s = (innerHeight s * 0.8, s)"
  "keySwitch ''PageUp'' s = (- innerHeight s * 0.8, s)"
  "keySwitch ''Home'' s = (0, s\<lparr>scroll_target := 0\<rparr>)"
  "keySwitch ''End'' s = (0, s\<lparr>scroll_target := scroll_limit s\<rparr>)"
  by (simp_all add: keySwitch_def)

lemma keydown_clamps:
  assumes "isLoaded s" and "0 \<le> scroll_limit s" and "innerHeight s \<noteq> 0"
    and "key \<in> set [''ArrowDown'', ''ArrowUp'', ''PageDown'', '' '', ''PageUp'', ''Home'', ''End'']"
  shows "0 \<le> scroll_target (fst (keydown key s))
     \<and> scroll_target (fst (keydown key s)) \<le> scroll_limit (fst (keydown key s))"
proof -
  have jump: "0 \<le> scroll_target (fst (keydown k s))
     \<and> scroll_target (fst (keydown k s)) \<le> scroll_limit (fst (keydown k s))"
    if "keySwitch k s = (a, s)" "a \<noteq> 0" for k a
    using assms(2) by (simp add: keydown_jump [OF assms(1) that])
  have assign: "0 \<le> scroll_target (fst (keydown k s))
     \<and> scroll_target (fst (keydown k s)) \<le> scroll_limit (fst (keydown k s))"
    if "keySwitch k s = (0, s\<lparr>scroll_target := v\<rparr>)" "0 \<le> v" "v \<le> scroll_limit s" for k v
    using that(2,3) by (simp add: keydown_assign [OF assms(1) that(1)])
  from assms(4) have "key = ''ArrowDown'' \<or> key = ''ArrowUp'' \<or> key = ''PageDown''
    \<or> key = '' '' \<or> key = ''PageUp'' \<or> key = ''Home'' \<or> key = ''End''"
    by simp
  then show ?thesis
  proof (elim disjE)
    assume "key = ''ArrowDown''"
    then show ?thesis using jump [OF keySwitch_keys(1)] by simp
  next
    assume "key = ''ArrowUp''"
    then show ?thesis using jump [OF keySwitch_keys(2)] by simp
  next
    assume "key = ''PageDown''"
    then show ?thesis using jump [OF keySwitch_keys(3)] assms(3) by simp
  next
    assume "key = '' ''"
    then show ?thesis using jump [OF keySwitch_keys(4)] assms(3) by simp
  next
    assume "key = ''PageUp''"
    then show ?thesis using jump [OF keySwitch_keys(5)] assms(3) by simp
  next
    assume "key = ''Home''"
    then show ?thesis using assign [OF keySwitch_keys(6)] assms(2) by simp
  next
    assume "key = ''End''"
    then show ?thesis using assign [OF keySwitch_keys(7)] assms(2) by simp
  qed
qed

text \<open>
  C6, as stated, fails on a page shorter than its viewport: the limit is negative, and the
  clamp of the wheel listener, whose outer bound is 0, leaves the target at 0, above the
  limit.
\<close>

theorem target_in_bounds_counterexample:
  "\<not> (0 \<le> scroll_target (wheel 100 0 shortPage)
      \<and> scroll_target (wheel 100 0 shortPage) \<le> scroll_limit (wheel 100 0 shortPage))"
  by (simp add: wheel_def Let_def shortPage_fields)

text \<open>
  C6, amended: once the page is loaded, whenever the limit is not negative (and the viewport
  has a height, so that the page keys jump), every wheel, touch-move and scroll-key update
  leaves \<open>0 \<le> target \<le> limit\<close>. The state before the update is arbitrary: the target may
  be above the limit because the limit has just shrunk, and the update clamps it down.
\<close>

theorem target_in_bounds_after_input:
  assumes "isLoaded s" and "0 \<le> scroll_limit s" and "innerHeight s \<noteq> 0"
    and "scrollInput e"
  shows "0 \<le> scroll_target (step e s) \<and> scroll_target (step e s) \<le> scroll_limit (step e s)"
proof (cases e)
  case (Wheel deltaY deltaMode)
  then show ?thesis using wheel_clamps [OF assms(1,2)] by simp
next
  case (KeyDown key)
  then show ?thesis using keydown_clamps [OF assms(1-3), of key] assms(4) by simp
next
  case (TouchMove clientY)
  then show ?thesis using touchmove_clamps [OF assms(1,2)] by simp
qed (use assms(4) in simp_all)

theorem target_in_bounds_after_input_witness:
  "isLoaded shrunk \<and> 0 \<le> scroll_limit shrunk \<and> innerHeight shrunk \<noteq> 0
   \<and> scrollInput (KeyDown ''ArrowDown'')
   \<and> scroll_limit shrunk < scroll_target shrunk
   \<and> 0 \<le> scroll_target (step (KeyDown ''ArrowDown'') shrunk)
   \<and> scroll_target (step (KeyDown ''ArrowDown'') shrunk)
       \<le> scroll_limit (step (KeyDown ''ArrowDown'') shrunk)"
proof -
  have h1: "isLoaded shrunk" by (simp add: shrunk_fields)
  have h2: "0 \<le> scroll_limit shrunk" by (simp add: shrunk_fields)
  have h3: "innerHeight shrunk \<noteq> 0" by (simp add: shrunk_fields)
  have h4: "scrollInput (KeyDown ''ArrowDown'')" by simp
  have h5: "scroll_limit shrunk < scroll_target shrunk" by (simp add: shrunk_fields)
  from h1 h2 h3 h4 h5 target_in_bounds_after_input [OF h1 h2 h3 h4] show ?thesis
    by blast
qed

text \<open>
  C8: the switch gives the arrow keys a jump of 100 pixels down or up, the page keys and
  the space bar a jump of 0.8 viewport heights, and lets Home and End assign 0 and the
  limit. The second half of the claim is where the code departs from it: the call of
  \<^verbatim>\<open>preventDefault\<close> sits under the test \<^verbatim>\<open>amount !== 0\<close>, which the arrow and
  page keys pass and Home and End, which leave \<^verbatim>\<open>amount\<close> at 0, do not. On the
  loaded example page a keydown of Home or End is not prevented, one of ArrowDown or
  PageUp is.
\<close>

theorem key_jumps_and_home_end_not_prevented:
  "fst (keySwitch ''ArrowDown'' s) = 100
   \<and> fst (keySwitch ''ArrowUp'' s) = - 100
   \<and> fst (keySwitch ''PageDown'' s) = 0.8 * innerHeight s
   \<and> fst (keySwitch '' '' s) = 0.8 * innerHeight s
   \<and> fst (keySwitch ''PageUp'' s) = - (0.8 * innerHeight s)
   \<and> keySwitch ''Home'' s = (0, s\<lparr>scroll_target := 0\<rparr>)
   \<and> keySwitch ''End'' s = (0, s\<lparr>scroll_target := scroll_limit s\<rparr>)
   \<and> isLoaded scenario
   \<and> snd (keydown ''ArrowDown'' scenario) \<and> snd (keydown ''PageUp'' scenario)
   \<and> \<not> snd (keydown ''Home'' scenario) \<and> \<not> snd (keydown ''End'' scenario)"
proof -
  have amounts: "fst (keySwitch ''ArrowDown'' s) = 100"
    "fst (keySwitch ''ArrowUp'' s) = - 100"
    "fst (keySwitch ''PageDown'' s) = 0.8 * innerHeight s"
    "fst (keySwitch '' '' s) = 0.8 * innerHeight s"
    "fst (keySwitch ''PageUp'' s) = - (0.8 * innerHeight s)"
    by (simp_all add: keySwitch_keys)
  have l: "isLoaded scenario"
    by (simp add: scenario_fields)
  have down: "snd (keydown ''ArrowDown'' scenario)"
    by (simp add: keydown_jump [OF l keySwitch_keys(1)])
  have up: "snd (keydown ''PageUp'' scenario)"
    by (simp add: keydown_jump [OF l keySwitch_keys(5)] scenario_fields)
  have home: "\<not> snd (keydown ''Home'' scenario)"
    by (simp add: keydown_assign [OF l keySwitch_keys(6)])
  have endk: "\<not> snd (keydown ''End'' scenario)"
    by (simp add: keydown_assign [OF l keySwitch_keys(7)])
  from amounts keySwitch_keys(6,7) l down up home endk show ?thesis
    by blast
qed

text \<open>
  C10: on a loaded page a keydown of End stores the limit in the target and does nothing
  else: the state is otherwise unchanged, no clamp is applied and
  \<^verbatim>\<open>preventDefault\<close> is not called. With a negative limit the target is negative
  afterwards.
\<close>

theorem end_key_assigns_limit_unclamped:
  assumes "isLoaded s"
  shows "fst (keydown ''End'' s) = s\<lparr>scroll_target := scroll_limit s\<rparr>
    \<and> scroll_target (fst (keydown ''End'' s)) = scroll_limit s
    \<and> \<not> snd (keydown ''End'' s)
    \<and> (scroll_limit s < 0 \<longrightarrow> scroll_target (fst (keydown ''End'' s)) < 0)"
  by (simp add: keydown_assign [OF assms keySwitch_keys(7)])

theorem end_key_assigns_limit_unclamped_witness:
  "isLoaded shortPage \<and> scroll_limit shortPage < 0
   \<and> scroll_target (fst (keydown ''End'' shortPage)) = - 500
   \<and> scroll_target (fst (keydown ''End'' shortPage)) < 0
   \<and> \<not> snd (keydown ''End'' shortPage)"
proof -
  have h: "isLoaded shortPage" by (simp add: shortPage_fields)
  from end_key_assigns_limit_unclamped [OF h] h show ?thesis
    by (simp add: shortPage_fields)
qed

section \<open>Layout changes\<close>

lemma resize_limit: "scroll_limit (step (Resize ch ih) s) = ch - ih"
  by (simp add: calculateBounds_def refreshListener_def)

lemma resize_keeps:
  "scroll_target (step (Resize ch ih) s) = scroll_target s"
  "scroll_y (step (Resize ch ih) s) = scroll_y s"
  "scroll_ease (step (Resize ch ih) s) = scroll_ease s"
  "isLoaded (step (Resize ch ih) s) = isLoaded s"
  by (simp_all add: calculateBounds_def refreshListener_def)

lemma frame_loaded: "isLoaded (fluidScrollRender s) = isLoaded s"
  by (simp add: fluidScrollRender_def Let_def)

text \<open>
  C2, as stated, fails. On the example page the user has wheeled to 800 and the limit has
  then dropped to 300: the next frame leaves the target at 800, above the limit, and moves
  the position towards 800 (to 64, not to the 24 a target of 300 would give). Nor does a
  frame read the layout metrics: after a layout shift that no listener has seen, the
  metrics give 300 and the frame keeps the limit at 1000.
\<close>

theorem frame_does_not_reclamp_counterexample:
  "scroll_limit shrunk = 300 \<and> scroll_target shrunk = 800
   \<and> \<not> scroll_target (fluidScrollRender shrunk) \<le> scroll_limit (fluidScrollRender shrunk)
   \<and> scroll_y (fluidScrollRender shrunk) = 64
   \<and> contentHeight (step (LayoutShift 1300) (wheel 800 0 scenario))
        - innerHeight (step (LayoutShift 1300) (wheel 800 0 scenario)) = 300
   \<and> scroll_limit (fluidScrollRender (step (LayoutShift 1300) (wheel 800 0 scenario))) = 1000"
  by (simp add: frame_target frame_limit frame_y shrunk_fields wheel_def Let_def scenario_fields
      scenario_def initSmoothScroll_def boot_def calculateBounds_def refreshListener_def
      fluidScrollRender_def)

text \<open>
  C2, amended: the limit is recomputed by \<^verbatim>\<open>calculateBounds\<close> (at start-up and on a
  window resize) and by the refresh listener, not by the frame. When a resize has dropped
  the limit to a value that is not negative and is at most the target, the next frame
  leaves the limit and the target as they are and integrates towards the unclamped
  target; on a loaded page the next wheel update brings the target into \<open>[0, limit]\<close>, and
  to the new limit itself when its delta is 0.
\<close>

theorem limit_shrink_reclamped_by_next_input:
  assumes "isLoaded s" and "0 \<le> ch - ih" and "ch - ih \<le> scroll_target s"
  shows "scroll_limit (step (Resize ch ih) s) = ch - ih
    \<and> scroll_limit (fluidScrollRender s) = scroll_limit s
    \<and> scroll_target (fluidScrollRender (step (Resize ch ih) s)) = scroll_target s
    \<and> scroll_y (fluidScrollRender (step (Resize ch ih) s))
        = scroll_y s + (scroll_target s - scroll_y s) * scroll_ease s
    \<and> 0 \<le> scroll_target (wheel deltaY deltaMode (fluidScrollRender (step (Resize ch ih) s)))
    \<and> scroll_target (wheel deltaY deltaMode (fluidScrollRender (step (Resize ch ih) s)))
        \<le> ch - ih
    \<and> scroll_target (wheel 0 deltaMode (fluidScrollRender (step (Resize ch ih) s))) = ch - ih"
proof -
  let ?r = "step (Resize ch ih) s"
  have l: "isLoaded (fluidScrollRender ?r)"
    using assms(1) by (simp only: frame_loaded resize_keeps)
  have lim: "scroll_limit (fluidScrollRender ?r) = ch - ih"
    by (simp only: frame_limit resize_limit)
  have tgt: "scroll_target (fluidScrollRender ?r) = scroll_target s"
    by (simp only: frame_target resize_keeps)
  have y: "scroll_y (fluidScrollRender ?r) = scroll_y s + (scroll_target s - scroll_y s) * scroll_ease s"
    by (simp only: frame_y resize_keeps)
  have nn: "0 \<le> scroll_limit (fluidScrollRender ?r)"
    using assms(2) by (simp only: lim)
  have ge: "scroll_limit (fluidScrollRender ?r) \<le> scroll_target (fluidScrollRender ?r)"
    using assms(3) by (simp only: lim tgt)
  have w: "0 \<le> scroll_target (wheel deltaY deltaMode (fluidScrollRender ?r))
    \<and> scroll_target (wheel deltaY deltaMode (fluidScrollRender ?r)) \<le> ch - ih"
    using wheel_clamps [OF l nn, of deltaY deltaMode] by (simp only: wheel_limit lim)
  have w0: "scroll_target (wheel 0 deltaMode (fluidScrollRender ?r)) = ch - ih"
    by (simp only: wheel_zero [OF l nn ge] lim)
  from resize_limit [of ch ih s] frame_limit [of s] tgt y w w0 show ?thesis by blast
qed

theorem limit_shrink_reclamped_by_next_input_witness:
  "isLoaded (wheel 800 0 scenario) \<and> (0 :: real) \<le> 1300 - 1000
   \<and> (1300 :: real) - 1000 \<le> scroll_target (wheel 800 0 scenario)
   \<and> scroll_target (fluidScrollRender (step (Resize 1300 1000) (wheel 800 0 scenario))) = 800
   \<and> scroll_y (fluidScrollRender (step (Resize 1300 1000) (wheel 800 0 scenario))) = 64
   \<and> scroll_target (wheel 0 0 (fluidScrollRender (step (Resize 1300 1000) (wheel 800 0 scenario))))
       = 300"
proof -
  have f: "isLoaded (wheel 800 0 scenario)" "scroll_target (wheel 800 0 scenario) = 800"
    "scroll_y (wheel 800 0 scenario) = 0" "scroll_ease (wheel 800 0 scenario) = 2 / 25"
    by (simp_all add: wheel_def Let_def scenario_fields)
  have h2: "(0 :: real) \<le> 1300 - 1000" by simp
  have h3: "(1300 :: real) - 1000 \<le> scroll_target (wheel 800 0 scenario)" by (simp add: f)
  from limit_shrink_reclamped_by_next_input [OF f(1) h2 h3, of 0 0] f h2 h3 show ?thesis
    by simp
qed

section \<open>The progress signal\<close>

lemma step_progress_bounds:
  assumes "0 \<le> GLOBAL_PROGRESS s" and "GLOBAL_PROGRESS s \<le> 1"
  shows "0 \<le> GLOBAL_PROGRESS (step e s) \<and> GLOBAL_PROGRESS (step e s) \<le> 1"
proof (cases e)
  case (KeyDown key)
  have "GLOBAL_PROGRESS (fst (keydown key s)) = GLOBAL_PROGRESS s"
    by (simp add: keydown_def keySwitch_def Let_def)
  with assms KeyDown show ?thesis by simp
qed (use assms in \<open>simp_all add: wheel_def touchstart_def touchmove_def fluidScrollRender_def
      calculateBounds_def refreshListener_def scrollTop_def Let_def\<close>)

lemma run_progress_bounds:
  "0 \<le> GLOBAL_PROGRESS s \<Longrightarrow> GLOBAL_PROGRESS s \<le> 1 \<Longrightarrow>
     0 \<le> GLOBAL_PROGRESS (run es s) \<and> GLOBAL_PROGRESS (run es s) \<le> 1"
proof (induction es arbitrary: s)
  case Nil
  then show ?case by simp
next
  case (Cons e es)
  from step_progress_bounds [OF Cons.prems] Cons.IH [of "step e s"] show ?case by simp
qed

lemma step_progress_zero:
  assumes "inputOrFrame e" and "scroll_limit s \<le> 0" and "GLOBAL_PROGRESS s = 0"
  shows "scroll_limit (step e s) = scroll_limit s \<and> GLOBAL_PROGRESS (step e s) = 0"
proof (cases e)
  case (KeyDown key)
  have "GLOBAL_PROGRESS (fst (keydown key s)) = GLOBAL_PROGRESS s
      \<and> scroll_limit (fst (keydown key s)) = scroll_limit s"
    by (simp add: keydown_def keySwitch_def Let_def)
  with assms KeyDown show ?thesis by simp
qed (use assms in \<open>simp_all add: wheel_def touchstart_def touchmove_def fluidScrollRender_def Let_def\<close>)

lemma run_progress_zero:
  "\<forall>e\<in>set es. inputOrFrame e \<Longrightarrow> scroll_limit s \<le> 0 \<Longrightarrow> GLOBAL_PROGRESS s = 0 \<Longrightarrow>
     scroll_limit (run es s) = scroll_limit s \<and> GLOBAL_PROGRESS (run es s) = 0"
proof (induction es arbitrary: s)
  case Nil
  then show ?case by simp
next
  case (Cons e es)
  from Cons.prems have e: "inputOrFrame e" and es: "\<forall>e\<in>set es. inputOrFrame e"
    by simp_all
  from step_progress_zero [OF e Cons.prems(2,3)]
  have st: "scroll_limit (step e s) = scroll_limit s" "GLOBAL_PROGRESS (step e s) = 0"
    by simp_all
  from Cons.IH [OF es, of "step e s"] st Cons.prems(2) show ?case by simp
qed

lemma run_limit:
  "\<forall>e\<in>set es. inputOrFrame e \<Longrightarrow> scroll_limit (run es s) = scroll_limit s"
proof (induction es arbitrary: s)
  case Nil
  then show ?case by simp
next
  case (Cons e es)
  from Cons.prems have e: "inputOrFrame e" and es: "\<forall>e\<in>set es. inputOrFrame e"
    by simp_all
  have "scroll_limit (step e s) = scroll_limit s"
  proof (cases e)
    case (KeyDown key)
    have "scroll_limit (fst (keydown key s)) = scroll_limit s"
      by (simp add: keydown_def keySwitch_def Let_def)
    with KeyDown show ?thesis by simp
  qed (use e in \<open>simp_all add: wheel_def touchstart_def touchmove_def fluidScrollRender_def Let_def\<close>)
  with Cons.IH [OF es, of "step e s"] show ?case by simp
qed

lemma init_progress:
  "0 \<le> GLOBAL_PROGRESS (initSmoothScroll (boot ch ih))"
  "GLOBAL_PROGRESS (initSmoothScroll (boot ch ih)) \<le> 1"
  "scroll_limit (initSmoothScroll (boot ch ih)) = ch - ih"
  "ch - ih \<le> 0 \<Longrightarrow> GLOBAL_PROGRESS (initSmoothScroll (boot ch ih)) = 0"
  by (simp_all add: engine_defs)

text \<open>
  A frame that finds the limit at 0 or below skips the assignment and leaves the progress it
  published last. So once a resize is among the events the progress can be positive under
  a negative limit: wheel to 500, one frame, the content shrinks to 500 pixels, one frame.
\<close>

lemma frame_keeps_progress_without_range:
  "scroll_limit s \<le> 0 \<Longrightarrow> GLOBAL_PROGRESS (fluidScrollRender s) = GLOBAL_PROGRESS s"
  by (simp add: fluidScrollRender_def Let_def)

lemma progress_kept_when_limit_drops:
  "scroll_limit (run [Wheel 500 0, Frame, Resize 500 1000, Frame] scenario) = - 500
   \<and> GLOBAL_PROGRESS (run [Wheel 500 0, Frame, Resize 500 1000, Frame] scenario) = 1 / 25"
  by (simp add: scenario_def engine_defs)

text \<open>
  C3: in every state the program reaches from its start, by any events, the published
  progress is in \<open>[0, 1]\<close>; and in every state reached by frames and input updates alone
  (wheel, keyboard, touch, and the end of the loader that enables them), the progress is
  exactly 0 whenever the limit is not positive.
\<close>

theorem progress_in_unit_interval:
  "0 \<le> GLOBAL_PROGRESS (run es (initSmoothScroll (boot ch ih)))
   \<and> GLOBAL_PROGRESS (run es (initSmoothScroll (boot ch ih))) \<le> 1
   \<and> ((\<forall>e\<in>set es. inputOrFrame e) \<and> scroll_limit (run es (initSmoothScroll (boot ch ih))) \<le> 0
        \<longrightarrow> GLOBAL_PROGRESS (run es (initSmoothScroll (boot ch ih))) = 0)"
proof -
  let ?s = "initSmoothScroll (boot ch ih)"
  have b: "0 \<le> GLOBAL_PROGRESS (run es ?s) \<and> GLOBAL_PROGRESS (run es ?s) \<le> 1"
    by (rule run_progress_bounds [OF init_progress(1,2)])
  have z: "GLOBAL_PROGRESS (run es ?s) = 0"
    if a: "\<forall>e\<in>set es. inputOrFrame e" and l: "scroll_limit (run es ?s) \<le> 0"
  proof -
    from run_limit [OF a, of ?s] l have "ch - ih \<le> 0"
      by (simp add: init_progress(3))
    then have "scroll_limit ?s \<le> 0" "GLOBAL_PROGRESS ?s = 0"
      by (simp_all add: init_progress)
    from run_progress_zero [OF a this] show ?thesis by simp
  qed
  from b z show ?thesis by blast
qed

theorem progress_in_unit_interval_witness:
  "scroll_limit (run [WorldBooted, Wheel 500 0, Frame, KeyDown ''End'', Frame]
        (initSmoothScroll (boot 500 1000))) \<le> 0
   \<and> GLOBAL_PROGRESS (run [WorldBooted, Wheel 500 0, Frame, KeyDown ''End'', Frame]
        (initSmoothScroll (boot 500 1000))) = 0"
proof -
  have a: "\<forall>e\<in>set [WorldBooted, Wheel 500 0, Frame, KeyDown ''End'', Frame]. inputOrFrame e"
    by simp
  have l: "scroll_limit (run [WorldBooted, Wheel 500 0, Frame, KeyDown ''End'', Frame]
        (initSmoothScroll (boot 500 1000))) \<le> 0"
    unfolding run_limit [OF a] init_progress(3) by simp
  from progress_in_unit_interval [of "[WorldBooted, Wheel 500 0, Frame, KeyDown ''End'', Frame]" 500 1000]
    a l show ?thesis by blast
qed

section \<open>The frame in binary64\<close>

subsection \<open>Rounding\<close>

lemma binade_bounds:
  "0 < a \<Longrightarrow> 2 powi (binade a k) \<le> a \<and> a < 2 powi (binade a k + 1)"
proof (induction a k rule: binade.induct)
  case (1 a k)
  show ?case
  proof (cases "a < 2 powi k")
    case True
    with 1 show ?thesis by (subst (1 2) binade.simps) simp
  next
    case False
    show ?thesis
    proof (cases "2 powi (k + 1) \<le> a")
      case True
      with 1 False show ?thesis by (subst (1 2) binade.simps) simp
    next
      case up: False
      with 1 False show ?thesis by (subst (1 2) binade.simps) simp
    qed
  qed
qed


lemma binade_ge: "0 < a \<Longrightarrow> 2 powi m \<le> a \<Longrightarrow> m \<le> binade a k"
proof -
  assume a: "0 < a" "2 powi m \<le> a"
  from binade_bounds [OF a(1), of k] a(2) have "(2::real) powi m < 2 powi (binade a k + 1)"
    by simp
  have "m < binade a k + 1"
  proof (rule ccontr)
    assume "\<not> m < binade a k + 1"
    then have "(2::real) powi (binade a k + 1) \<le> 2 powi m"
      by (intro power_int_increasing) simp_all
    with \<open>(2::real) powi m < 2 powi (binade a k + 1)\<close> show False by simp
  qed
  then show ?thesis by simp
qed

lemma binade_mono: "0 < a \<Longrightarrow> a \<le> b \<Longrightarrow> binade a k \<le> binade b k'"
proof -
  assume a: "0 < a" "a \<le> b"
  then have b: "0 < b" by simp
  from binade_bounds [OF a(1), of k] a(2) have "2 powi binade a k \<le> b" by simp
  from binade_ge [OF b this] show ?thesis .
qed

lemma rne_of_int [simp]: "rne (of_int n) = n"
  by (simp add: rne_def)

lemma rne_zero [simp]: "rne 0 = 0"
  by (simp add: rne_def)

lemma rne_mono: "x \<le> y \<Longrightarrow> rne x \<le> rne y"
proof -
  assume xy: "x \<le> y"
  have lo: "\<lfloor>m\<rfloor> \<le> rne m" and hi: "rne m \<le> \<lfloor>m\<rfloor> + 1" for m
    by (simp_all add: rne_def Let_def)
  from xy have fl: "\<lfloor>x\<rfloor> \<le> \<lfloor>y\<rfloor>" by (rule floor_mono)
  show ?thesis
  proof (cases "\<lfloor>x\<rfloor> = \<lfloor>y\<rfloor>")
    case True
    with xy show ?thesis by (auto simp: rne_def Let_def)
  next
    case False
    with fl have "\<lfloor>x\<rfloor> + 1 \<le> \<lfloor>y\<rfloor>" by simp
    with hi [of x] lo [of y] show ?thesis by simp
  qed
qed

lemma rne_le_double: "0 \<le> m \<Longrightarrow> of_int (rne m) \<le> 2 * m"
proof -
  assume m: "0 \<le> m"
  show ?thesis
  proof (cases "m < 1 / 2")
    case True
    with m have "\<lfloor>m\<rfloor> = 0" by (simp add: floor_eq_iff)
    with True show ?thesis using m by (simp add: rne_def Let_def)
  next
    case False
    have "of_int (rne m) \<le> m + 1 / 2"
      by (auto simp: rne_def Let_def) linarith+
    with False show ?thesis by simp
  qed
qed

lemma rne_nonneg: "0 \<le> m \<Longrightarrow> 0 \<le> rne m"
  using rne_mono [of 0 m] by simp

lemma pow2_pos [simp]: "0 < (2::real) powi k"
  by (simp add: zero_less_power_int)

lemma pow2_split: "(2::real) powi (e + k) = 2 powi e * 2 powi k"
  by (simp add: power_int_add)

lemma roundPos_zero [simp]: "roundPos 0 = 0"
  by (simp add: roundPos_def)

lemma roundPos_nonneg: "0 \<le> a \<Longrightarrow> 0 \<le> roundPos a"
  unfolding roundPos_def by (intro mult_nonneg_nonneg) (simp_all add: rne_nonneg)

lemma roundPos_le_double: "0 \<le> a \<Longrightarrow> roundPos a \<le> 2 * a"
proof -
  assume a: "0 \<le> a"
  let ?u = "(2::real) powi ulpExp a"
  have "0 \<le> a / ?u" using a by simp
  from rne_le_double [OF this] have "of_int (rne (a / ?u)) * ?u \<le> 2 * (a / ?u) * ?u"
    by (intro mult_right_mono) simp_all
  then show ?thesis by (simp add: roundPos_def)
qed

lemma ulpExp_ge: "- 1074 \<le> ulpExp a" "binade a 0 - 52 \<le> ulpExp a"
  by (simp_all add: ulpExp_def)

lemma ulpExp_mono: "0 < a \<Longrightarrow> a \<le> b \<Longrightarrow> ulpExp a \<le> ulpExp b"
  using binade_mono [of a b 0 0] by (simp add: ulpExp_def)

lemma roundPos_upper:
  assumes "0 < a"
  shows "roundPos a \<le> 2 powi (ulpExp a + 53)"
proof -
  let ?e = "ulpExp a"
  have "a < 2 powi (binade a 0 + 1)"
    using binade_bounds [OF assms, of 0] by simp
  also have "(2::real) powi (binade a 0 + 1) \<le> 2 powi (?e + 53)"
    using ulpExp_ge(2) [of a] by (intro power_int_increasing) simp_all
  finally have "a < 2 powi ?e * 2 powi 53"
    by (simp only: pow2_split)
  then have "a / 2 powi ?e \<le> of_int (2 ^ 53)"
    by (simp add: pos_divide_le_eq mult.commute)
  from rne_mono [OF this] have "rne (a / 2 powi ?e) \<le> 2 ^ 53"
    by (simp only: rne_of_int)
  then have "real_of_int (rne (a / 2 powi ?e)) \<le> 2 powi 53"
    by (simp add: of_int_le_iff [symmetric] del: of_int_le_iff)
  then have "real_of_int (rne (a / 2 powi ?e)) * 2 powi ?e \<le> 2 powi 53 * 2 powi ?e"
    by (intro mult_right_mono) simp_all
  then show ?thesis
    by (simp only: roundPos_def pow2_split mult.commute)
qed

lemma roundPos_lower:
  assumes "0 < b" and "- 1074 < ulpExp b"
  shows "2 powi (ulpExp b + 52) \<le> roundPos b"
proof -
  let ?e = "ulpExp b"
  from assms(2) have e: "?e = binade b 0 - 52"
    by (simp add: ulpExp_def max_def split: if_splits)
  have "2 powi (?e + 52) \<le> b"
    using binade_bounds [OF assms(1), of 0] by (simp add: e)
  then have "2 powi ?e * 2 powi 52 \<le> b"
    by (simp only: pow2_split)
  then have "of_int (2 ^ 52) \<le> b / 2 powi ?e"
    by (simp add: pos_le_divide_eq mult.commute)
  from rne_mono [OF this] have "2 ^ 52 \<le> rne (b / 2 powi ?e)"
    by (simp only: rne_of_int)
  then have "2 powi 52 \<le> real_of_int (rne (b / 2 powi ?e))"
    by (simp add: of_int_le_iff [symmetric] del: of_int_le_iff)
  then have "2 powi 52 * 2 powi ?e \<le> real_of_int (rne (b / 2 powi ?e)) * 2 powi ?e"
    by (intro mult_right_mono) simp_all
  then show ?thesis
    by (simp only: roundPos_def pow2_split mult.commute)
qed

lemma roundPos_mono:
  assumes "0 \<le> a" and "a \<le> b"
  shows "roundPos a \<le> roundPos b"
proof (cases "a = 0")
  case True
  with assms roundPos_nonneg [of b] show ?thesis by simp
next
  case False
  with assms have a: "0 < a" and b: "0 < b" by simp_all
  from ulpExp_mono [OF a assms(2)] have le: "ulpExp a \<le> ulpExp b" .
  show ?thesis
  proof (cases "ulpExp a = ulpExp b")
    case True
    let ?u = "(2::real) powi ulpExp b"
    from assms(2) have "a / ?u \<le> b / ?u"
      by (simp add: divide_right_mono)
    from rne_mono [OF this] have "real_of_int (rne (a / ?u)) * ?u \<le> real_of_int (rne (b / ?u)) * ?u"
      by (intro mult_right_mono) simp_all
    then show ?thesis by (simp add: roundPos_def True)
  next
    case False
    with le have lt: "ulpExp a + 1 \<le> ulpExp b" by simp
    with ulpExp_ge(1) [of a] have "- 1074 < ulpExp b" by simp
    from roundPos_lower [OF b this] have lo: "2 powi (ulpExp b + 52) \<le> roundPos b" .
    have "(2::real) powi (ulpExp a + 53) \<le> 2 powi (ulpExp b + 52)"
      using lt by (intro power_int_increasing) simp_all
    with roundPos_upper [OF a] lo show ?thesis by simp
  qed
qed

lemma round64_zero [simp]: "round64 0 = 0"
  by (simp add: round64_def)

lemma round64_minus: "round64 (- x) = - round64 x"
  by (cases "x = 0") (auto simp: round64_def)

lemma round64_nonneg: "0 \<le> x \<Longrightarrow> 0 \<le> round64 x"
  by (simp add: round64_def roundPos_nonneg)

lemma round64_le_double: "0 \<le> x \<Longrightarrow> round64 x \<le> 2 * x"
  by (simp add: round64_def roundPos_le_double)

lemma round64_mono:
  assumes "x \<le> y"
  shows "round64 x \<le> round64 y"
proof -
  consider "0 \<le> x" | "x < 0" "0 \<le> y" | "y < 0" using assms by linarith
  then show ?thesis
  proof cases
    case 1
    with assms show ?thesis by (simp add: round64_def roundPos_mono)
  next
    case 2
    with roundPos_nonneg [of "- x"] roundPos_nonneg [of y] show ?thesis
      by (simp add: round64_def)
  next
    case 3
    with assms roundPos_mono [of "- y" "- x"] show ?thesis
      by (simp add: round64_def)
  qed
qed





text \<open>
  Evaluating the rounding of a given number: the search of \<open>binade\<close> is unfolded. The
  literal 0.08 denotes \<open>5764607523034235 / 2^56\<close>.
\<close>

lemmas round64_eval = round64_def roundPos_def ulpExp_def rne_def Let_def

lemma round64_ease: "round64 (2/25) = 5764607523034235 / 2 ^ 56"
  by (simp add: round64_eval binade.simps)

subsection \<open>One frame and its iterates\<close>

lemma frame64_y:
  "scroll_y (fluidScrollRender64 s) = lerp64 (scroll_target s) (scroll_ease s) (scroll_y s)"
  by (simp add: fluidScrollRender64_def lerp64_def Let_def)







lemma lerp64_up:
  assumes "round64 y = y" and "round64 t = t" and "0 \<le> e" and "e \<le> 1 / 4" and "y \<le> t"
  shows "y \<le> lerp64 t e y \<and> lerp64 t e y \<le> t"
proof -
  let ?d = "round64 (t - y)"
  let ?p = "round64 (?d * e)"
  have "0 \<le> t - y"
    using assms(5) by simp
  then have d: "0 \<le> ?d" "?d \<le> 2 * (t - y)"
    by (rule round64_nonneg, rule round64_le_double)
  have de: "0 \<le> ?d * e"
    using d(1) assms(3) by simp
  have p0: "0 \<le> ?p"
    by (rule round64_nonneg [OF de])
  have "?p \<le> 2 * (?d * e)"
    by (rule round64_le_double [OF de])
  also have "\<dots> \<le> 2 * (?d * (1 / 4))"
    using d(1) assms(4) by (intro mult_left_mono) simp_all
  also have "\<dots> \<le> t - y"
    using d(2) by simp
  finally have p1: "?p \<le> t - y" .
  have "round64 y \<le> round64 (y + ?p)"
    using p0 by (intro round64_mono) simp
  moreover have "round64 (y + ?p) \<le> round64 t"
    using p1 by (intro round64_mono) simp
  ultimately show ?thesis
    by (simp add: lerp64_def assms(1,2))
qed

lemma lerp64_minus: "lerp64 (- t) e (- y) = - lerp64 t e y"
proof -
  have "round64 (- t - - y) = - round64 (t - y)"
    using round64_minus [of "t - y"] by simp
  then have "round64 (round64 (- t - - y) * e) = - round64 (round64 (t - y) * e)"
    using round64_minus [of "round64 (t - y) * e"] by simp
  then have "round64 (- y + round64 (round64 (- t - - y) * e))
      = - round64 (y + round64 (round64 (t - y) * e))"
    using round64_minus [of "y + round64 (round64 (t - y) * e)"] by simp
  then show ?thesis by (simp add: lerp64_def)
qed

lemma lerp64_down:
  assumes "round64 y = y" and "round64 t = t" and "0 \<le> e" and "e \<le> 1 / 4" and "t \<le> y"
  shows "t \<le> lerp64 t e y \<and> lerp64 t e y \<le> y"
proof -
  have "round64 (- y) = - y" "round64 (- t) = - t"
    by (simp_all add: round64_minus assms(1,2))
  from lerp64_up [OF this assms(3,4)] assms(5) show ?thesis
    by (simp add: lerp64_minus)
qed






subsection \<open>The example, frame by frame\<close>




































text \<open>
  With an ease factor of 1 a frame can carry the position past the target: from 0.5 towards
  the binary64 value of 0.1 the frame lands below it.
\<close>

lemma overshoot64_at_ease_one:
  "round64 (1 / 10) < 1 / 2
   \<and> scroll_y (fluidScrollRender64
        (scenario64\<lparr>scroll_y := 1 / 2, scroll_target := round64 (1 / 10), scroll_ease := 1\<rparr>))
      < round64 (1 / 10)"
  by (simp add: frame64_y lerp64_def round64_eval binade.simps)




end
